theory Spec2Isabelle
  imports Main "HOL-Library.Word"
begin

unbundle bit_operations_syntax

section \<open>The floating-point types and their values\<close>

text \<open>
  The class template \<open>IEEE_754<float_type>\<close> of \<open>float_cmp.hpp\<close> reads three things off
  its type parameter: \<open>sizeof(float_type)\<close>, \<open>std::numeric_limits<float_type>::digits\<close>
  and \<open>std::numeric_limits<float_type>::epsilon()\<close>. A \<open>float_type\<close> is modelled by the
  first two; epsilon is \<open>2 ^ (1 - digits)\<close> by its definition in the standard library.
  \<open>type_with_size<sizeof(float_type)>::t_uint\<close> is the word type \<open>'a word\<close>:
  \<open>32 word\<close> for \<open>float\<close> and \<open>64 word\<close> for \<open>double\<close>.
\<close>

record float_type =
  size_of :: nat
  digits :: nat

definition float_t :: float_type where
  "float_t = \<lparr>size_of = 4, digits = 24\<rparr>"

definition double_t :: float_type where
  "double_t = \<lparr>size_of = 8, digits = 53\<rparr>"

text \<open>
  The value a bit pattern stands for when the union \<open>data\<close> is read through its member
  \<open>float_\<close>. A finite value is kept as an integer, its multiple of the smallest positive
  subnormal number of the type (\<open>2 ^ -149\<close> for \<open>float\<close>, \<open>2 ^ -1074\<close> for \<open>double\<close>):
  every finite value of the type is such a multiple, and so is every exact difference of
  two of them. The sign of a zero is not kept: subtraction, negation and the comparisons,
  the only operations used here, do not see it. \<open>Infty True\<close> is minus infinity.
\<close>

datatype fval = NaN | Infty bool | Fin int

subsection \<open>Constants of the class\<close>

definition bitCount :: "float_type \<Rightarrow> nat" where
  "bitCount ft = 8 * size_of ft"

definition significandBitCount :: "float_type \<Rightarrow> nat" where
  "significandBitCount ft = digits ft - 1"

definition exponentBitCount :: "float_type \<Rightarrow> nat" where
  "exponentBitCount ft = bitCount ft - 1 - significandBitCount ft"

definition signBitMask :: "float_type \<Rightarrow> 'a::len word" where
  "signBitMask ft = push_bit (bitCount ft - 1) 1"

definition significandBitMask :: "float_type \<Rightarrow> 'a::len word" where
  "significandBitMask ft = drop_bit (exponentBitCount ft + 1) (NOT 0)"

definition exponentBitMask :: "float_type \<Rightarrow> 'a::len word" where
  "exponentBitMask ft = NOT (signBitMask ft OR significandBitMask ft)"

text \<open>
  \<open>maxDiff\<close> is the machine epsilon \<open>2 ^ (1 - digits)\<close>. The smallest positive subnormal
  is \<open>2 ^ (3 - 2 ^ (exponentBitCount - 1) - digits)\<close>, so epsilon is
  \<open>2 ^ (2 ^ (exponentBitCount - 1) - 2)\<close> times it.
\<close>

definition maxDiff :: "float_type \<Rightarrow> fval" where
  "maxDiff ft = Fin (2 ^ (2 ^ (exponentBitCount ft - 1) - 2))"

definition maxUlpsDiff :: nat where
  "maxUlpsDiff = 4"

subsection \<open>Floating-point arithmetic\<close>

text \<open>
  IEEE-754 arithmetic in the default rounding mode (to nearest, ties to even), as far
  as the header uses it: \<open>-\<close>, unary \<open>-\<close>, \<open>>=\<close> and \<open><=\<close>.
\<close>

fun bit_length :: "nat \<Rightarrow> nat" where
  "bit_length n = (if n = 0 then 0 else Suc (bit_length (n div 2)))"

declare bit_length.simps [simp del]

text \<open>
  Rounding a magnitude to \<open>dg\<close> significant bits. A magnitude of at most \<open>dg\<close> bits is
  a subnormal or lies in the first binade of normal numbers and is representable.
\<close>

definition round_even :: "nat \<Rightarrow> nat \<Rightarrow> nat" where
  "round_even dg n =
     (if bit_length n \<le> dg then n
      else let k = bit_length n - dg; q = n div 2 ^ k; r = n mod 2 ^ k; h = 2 ^ (k - 1)
           in (if h < r \<or> (r = h \<and> odd q) then q + 1 else q) * 2 ^ k)"

text \<open>
  The result of an operation whose exact value is \<open>d\<close>: rounded, and infinite when the
  rounded magnitude is beyond the largest finite one,
  \<open>(2 ^ digits - 1) * 2 ^ (2 ^ exponentBitCount - 3)\<close>.
\<close>

definition fround :: "float_type \<Rightarrow> int \<Rightarrow> fval" where
  "fround ft d =
     (let r = round_even (digits ft) (nat \<bar>d\<bar>)
      in if 2 ^ (digits ft + (2 ^ exponentBitCount ft - 3)) \<le> r then Infty (d < 0)
         else Fin (if d < 0 then - int r else int r))"

fun fsub :: "float_type \<Rightarrow> fval \<Rightarrow> fval \<Rightarrow> fval" where
  "fsub ft NaN y = NaN"
| "fsub ft x NaN = NaN"
| "fsub ft (Infty a) (Infty b) = (if a = b then NaN else Infty a)"
| "fsub ft (Infty a) (Fin y) = Infty a"
| "fsub ft (Fin x) (Infty b) = Infty (\<not> b)"
| "fsub ft (Fin x) (Fin y) = fround ft (x - y)"

fun fneg :: "fval \<Rightarrow> fval" where
  "fneg NaN = NaN"
| "fneg (Infty a) = Infty (\<not> a)"
| "fneg (Fin x) = Fin (- x)"

fun fle :: "fval \<Rightarrow> fval \<Rightarrow> bool" where
  "fle NaN y = False"
| "fle x NaN = False"
| "fle (Infty a) (Infty b) = (a \<or> \<not> b)"
| "fle (Infty a) (Fin y) = a"
| "fle (Fin x) (Infty b) = (\<not> b)"
| "fle (Fin x) (Fin y) = (x \<le> y)"

definition fge :: "fval \<Rightarrow> fval \<Rightarrow> bool" where
  "fge x y = fle y x"

text \<open>\<open>absolute_value(v)\<close> is \<open>v >= T{} ? v : -v\<close>.\<close>

definition absolute_value :: "fval \<Rightarrow> fval" where
  "absolute_value v = (if fge v (Fin 0) then v else fneg v)"

section \<open>The wrapper\<close>

text \<open>
  An \<open>IEEE_754<float_type>\<close> holds one union of a \<open>float_type\<close> and a \<open>bit_data\<close>. It is
  modelled by the bit pattern; \<open>bit_data()\<close> is the identity on it.
\<close>

definition exponent_bits :: "float_type \<Rightarrow> 'a::len word \<Rightarrow> 'a word" where
  "exponent_bits ft w = exponentBitMask ft AND w"

definition significand_bits :: "float_type \<Rightarrow> 'a::len word \<Rightarrow> 'a word" where
  "significand_bits ft w = significandBitMask ft AND w"

definition sign_bit :: "float_type \<Rightarrow> 'a::len word \<Rightarrow> 'a word" where
  "sign_bit ft w = signBitMask ft AND w"

text \<open>
  \<open>float_data()\<close>: the IEEE-754 binary interchange format. An exponent field of all ones
  is an infinity or a NaN; a field of zero is a subnormal (or zero), with magnitude the
  significand field; a field \<open>e\<close> in between is \<open>(2 ^ significandBitCount + significand)
  * 2 ^ (e - 1)\<close> in units of the smallest subnormal.
\<close>

definition float_data :: "float_type \<Rightarrow> 'a::len word \<Rightarrow> fval" where
  "float_data ft w =
     (let neg = (sign_bit ft w \<noteq> 0);
          e = unat (drop_bit (significandBitCount ft) (exponent_bits ft w));
          m = unat (significand_bits ft w)
      in if exponent_bits ft w = exponentBitMask ft
         then (if significand_bits ft w = 0 then Infty neg else NaN)
         else let mag = (if e = 0 then int m
                         else (2 ^ significandBitCount ft + int m) * 2 ^ (e - 1))
              in Fin (if neg then - mag else mag))"

definition is_nan :: "float_type \<Rightarrow> 'a::len word \<Rightarrow> bool" where
  "is_nan ft w \<longleftrightarrow> exponent_bits ft w = exponentBitMask ft \<and> significand_bits ft w \<noteq> 0"

definition float_close :: "float_type \<Rightarrow> fval \<Rightarrow> fval \<Rightarrow> bool" where
  "float_close ft lhs rhs = fle (absolute_value (fsub ft lhs rhs)) (maxDiff ft)"

text \<open>
  \<open>lhs - rhs\<close> is a subtraction of \<open>bit_data\<close> and wraps around; the comparison with the
  \<open>size_t\<close> constant is unsigned.
\<close>

definition ulp_close :: "'a::len word \<Rightarrow> 'a word \<Rightarrow> bool" where
  "ulp_close lhs rhs \<longleftrightarrow> unat (lhs - rhs) \<le> maxUlpsDiff"

definition almost_equal :: "float_type \<Rightarrow> 'a::len word \<Rightarrow> 'a word \<Rightarrow> bool" where
  "almost_equal ft self rhs =
     (if is_nan ft self \<or> is_nan ft rhs then False
      else if float_close ft (float_data ft self) (float_data ft rhs) then True
      else if sign_bit ft self \<noteq> sign_bit ft rhs then False
      else ulp_close self rhs)"

text \<open>
  The values of \<open>float_type\<close> that the properties below speak of beside the operands:
  \<open>0.0\<close> is the bit pattern \<open>0\<close>, and \<open>-x\<close> is \<open>x\<close> with its sign bit flipped.
\<close>

definition float_negate :: "float_type \<Rightarrow> 'a::len word \<Rightarrow> 'a word" where
  "float_negate ft w = w XOR signBitMask ft"

section \<open>The two instances\<close>

lemma float_consts:
  "bitCount float_t = 32" "significandBitCount float_t = 23" "exponentBitCount float_t = 8"
  "digits float_t = 24"
  by (simp_all add: bitCount_def significandBitCount_def exponentBitCount_def float_t_def)

lemma double_consts:
  "bitCount double_t = 64" "significandBitCount double_t = 52" "exponentBitCount double_t = 11"
  "digits double_t = 53"
  by (simp_all add: bitCount_def significandBitCount_def exponentBitCount_def double_t_def)

lemma float_masks:
  "signBitMask float_t = (0x80000000 :: 32 word)"
  "significandBitMask float_t = (0x007FFFFF :: 32 word)"
  "exponentBitMask float_t = (0x7F800000 :: 32 word)"
  by (simp_all add: signBitMask_def significandBitMask_def exponentBitMask_def float_consts
      mask_eq_exp_minus_1)

lemma double_masks:
  "signBitMask double_t = (0x8000000000000000 :: 64 word)"
  "significandBitMask double_t = (0x000FFFFFFFFFFFFF :: 64 word)"
  "exponentBitMask double_t = (0x7FF0000000000000 :: 64 word)"
  by (simp_all add: signBitMask_def significandBitMask_def exponentBitMask_def double_consts
      mask_eq_exp_minus_1)

lemmas field_defs = exponent_bits_def significand_bits_def sign_bit_def

section \<open>Rounding\<close>

lemma bit_length_0: "bit_length 0 = 0"
  by (subst bit_length.simps) simp

lemma bit_length_pos: "n \<noteq> 0 \<Longrightarrow> bit_length n = Suc (bit_length (n div 2))"
  by (subst bit_length.simps) simp

lemma bit_length_upper: "n < 2 ^ bit_length n"
proof (induction n rule: bit_length.induct)
  case (1 n)
  show ?case
  proof (cases "n = 0")
    case True
    then show ?thesis by (simp add: bit_length_0)
  next
    case False
    with 1 have "n div 2 < 2 ^ bit_length (n div 2)" by simp
    then have "n < 2 * 2 ^ bit_length (n div 2)" by linarith
    then show ?thesis using False by (simp add: bit_length_pos)
  qed
qed

lemma bit_length_lower: "n \<noteq> 0 \<Longrightarrow> 2 ^ (bit_length n - 1) \<le> n"
proof (induction n rule: bit_length.induct)
  case (1 n)
  then have n: "n \<noteq> 0" by simp
  show ?case
  proof (cases "n div 2 = 0")
    case True
    then show ?thesis using n by (simp add: bit_length_pos bit_length_0)
  next
    case False
    with 1 n have ih: "2 ^ (bit_length (n div 2) - 1) \<le> n div 2" by simp
    have "bit_length (n div 2) = Suc (bit_length (n div 2) - 1)"
      using False by (simp add: bit_length_pos)
    then have "(2::nat) ^ bit_length (n div 2) = 2 * 2 ^ (bit_length (n div 2) - 1)"
      by (metis power_Suc)
    also have "\<dots> \<le> 2 * (n div 2)" using ih by simp
    also have "\<dots> \<le> n" by simp
    finally show ?thesis using n by (simp add: bit_length_pos)
  qed
qed

lemma bit_length_le_iff: "bit_length n \<le> j \<longleftrightarrow> n < 2 ^ j"
proof
  assume "bit_length n \<le> j"
  then have "(2::nat) ^ bit_length n \<le> 2 ^ j" by (simp add: power_increasing)
  with bit_length_upper [of n] show "n < 2 ^ j" by linarith
next
  assume a: "n < 2 ^ j"
  show "bit_length n \<le> j"
  proof (cases "n = 0")
    case True then show ?thesis by (simp add: bit_length_0)
  next
    case False
    from bit_length_lower [OF False] a have "(2::nat) ^ (bit_length n - 1) < 2 ^ j" by linarith
    then have "bit_length n - 1 < j" by (simp add: power_strict_increasing_iff)
    then show ?thesis by linarith
  qed
qed

lemma round_even_ge_pow:
  assumes dg: "0 < dg" and n: "2 ^ j \<le> n"
  shows "2 ^ j \<le> round_even dg n"
proof (cases "bit_length n \<le> dg")
  case True
  then show ?thesis using n by (simp add: round_even_def)
next
  case False
  define k where "k = bit_length n - dg"
  define q where "q = n div 2 ^ k"
  have "(0::nat) < 2 ^ j" by simp
  with n have n0: "n \<noteq> 0" by linarith
  have bl: "bit_length n - 1 = (dg - 1) + k" using False dg by (simp add: k_def)
  have "\<not> bit_length n \<le> j" using n by (simp add: bit_length_le_iff)
  then have "j \<le> (dg - 1) + k" using bl by linarith
  then have "(2::nat) ^ j \<le> 2 ^ ((dg - 1) + k)" by (simp add: power_increasing)
  also have "\<dots> = 2 ^ (dg - 1) * 2 ^ k" by (simp add: power_add)
  also have "\<dots> \<le> q * 2 ^ k"
  proof -
    have "2 ^ (dg - 1) * 2 ^ k \<le> n" using bit_length_lower [OF n0] bl by (simp add: power_add)
    then have "2 ^ (dg - 1) * 2 ^ k div 2 ^ k \<le> n div 2 ^ k" by (rule div_le_mono)
    then have "2 ^ (dg - 1) \<le> q" by (simp add: q_def)
    then show ?thesis by simp
  qed
  also have "\<dots> \<le> round_even dg n"
    using False by (simp add: round_even_def Let_def k_def q_def)
  finally show ?thesis .
qed

lemma round_even_le_pow:
  assumes dg: "0 < dg" and n: "n \<le> 2 ^ j"
  shows "round_even dg n \<le> 2 ^ j"
proof (cases "bit_length n \<le> dg")
  case True
  then show ?thesis using n by (simp add: round_even_def)
next
  case False
  define k where "k = bit_length n - dg"
  define q where "q = n div 2 ^ k"
  have k: "0 < k" "bit_length n = dg + k" using False by (simp_all add: k_def)
  have up: "round_even dg n \<le> (q + 1) * 2 ^ k"
    using False by (simp add: round_even_def Let_def k_def q_def)
  have "n < 2 ^ dg * 2 ^ k" using bit_length_upper [of n] k by (simp add: power_add)
  then have "q < 2 ^ dg" by (simp add: q_def less_mult_imp_div_less)
  then have "q + 1 \<le> 2 ^ dg" by simp
  then have "(q + 1) * 2 ^ k \<le> 2 ^ dg * 2 ^ k" by (rule mult_le_mono1)
  then have r: "round_even dg n \<le> 2 ^ bit_length n" using up k by (simp add: power_add)
  show ?thesis
  proof (cases "n = 2 ^ j")
    case True
    have "\<not> bit_length n \<le> j" using True by (simp add: bit_length_le_iff)
    moreover have "bit_length n \<le> Suc j" using True by (simp add: bit_length_le_iff)
    ultimately have j: "j = (dg - 1) + k" using k dg by linarith
    have nmul: "n = 2 ^ (dg - 1) * 2 ^ k" using True j by (simp add: power_add)
    have "n mod 2 ^ k = 0" by (simp add: nmul)
    moreover have "n div 2 ^ k * 2 ^ k = n" by (simp add: nmul)
    ultimately have "round_even dg n = n"
      using False k by (simp add: round_even_def Let_def k_def [symmetric])
    then show ?thesis using True by simp
  next
    case False
    with n have "n < 2 ^ j" by simp
    then have "bit_length n \<le> j" by (simp add: bit_length_le_iff)
    then have "(2::nat) ^ bit_length n \<le> 2 ^ j" by (simp add: power_increasing)
    with r show ?thesis by linarith
  qed
qed

text \<open>
  The exact threshold: a magnitude rounds to at most \<open>2 ^ j\<close> exactly when it is at most
  \<open>2 ^ j\<close> plus half a unit in the last place of \<open>2 ^ j\<close>, the tie going to the even
  significand of \<open>2 ^ j\<close>.
\<close>

lemma round_even_le_pow_iff:
  assumes dg: "2 \<le> dg" and j: "dg \<le> j"
  shows "round_even dg n \<le> 2 ^ j \<longleftrightarrow> n \<le> 2 ^ j + 2 ^ (j - dg)"
proof (cases "n \<le> 2 ^ j")
  case True
  moreover have "0 < dg" using dg by simp
  ultimately have "round_even dg n \<le> 2 ^ j" by (intro round_even_le_pow)
  then show ?thesis using True by simp
next
  case low: False
  have hj: "(2::nat) ^ (j - dg) < 2 ^ j" using dg j by (simp add: power_strict_increasing_iff)
  show ?thesis
  proof (cases "2 ^ Suc j \<le> n")
    case True
    moreover have "0 < dg" using dg by simp
    ultimately have "2 ^ Suc j \<le> round_even dg n" by (intro round_even_ge_pow)
    moreover have "(2::nat) ^ Suc j = 2 * 2 ^ j" "(0::nat) < 2 ^ j" by simp_all
    ultimately have "\<not> round_even dg n \<le> 2 ^ j" "\<not> n \<le> 2 ^ j + 2 ^ (j - dg)"
      using True hj by linarith+
    then show ?thesis by simp
  next
    case high: False
    define k where "k = Suc j - dg"
    define q where "q = n div 2 ^ k"
    define r where "r = n mod 2 ^ k"
    define h :: nat where "h = 2 ^ (k - 1)"
    define p :: nat where "p = 2 ^ (dg - 1)"
    have k: "k - 1 = j - dg" "k = Suc (k - 1)" "j = (dg - 1) + k"
      using dg j by (simp_all add: k_def)
    have bl: "bit_length n = Suc j"
    proof -
      have "bit_length n \<le> Suc j" using high by (simp add: bit_length_le_iff)
      moreover have "\<not> bit_length n \<le> j" using low by (simp add: bit_length_le_iff)
      ultimately show ?thesis by linarith
    qed
    have re: "round_even dg n = (if h < r \<or> (r = h \<and> odd q) then q + 1 else q) * 2 ^ k"
      using j by (simp add: round_even_def bl Let_def k_def [symmetric] q_def r_def h_def)
    have pj: "(2::nat) ^ j = p * 2 ^ k"
      unfolding p_def by (subst k(3)) (simp only: power_add)
    have hh: "h = 2 ^ (j - dg)" unfolding h_def by (simp only: k(1))
    have hk: "(2::nat) ^ k = 2 * h" unfolding h_def by (subst k(2)) simp
    have nq: "n = q * 2 ^ k + r" by (simp only: q_def r_def div_mult_mod_eq)
    have rlt: "r < 2 * h" unfolding hk [symmetric] r_def by simp
    have qge: "p \<le> q"
    proof -
      have "p * 2 ^ k \<le> n" using low pj by simp
      then have "p * 2 ^ k div 2 ^ k \<le> n div 2 ^ k" by (rule div_le_mono)
      then show ?thesis by (simp add: q_def)
    qed
    have ev: "even p" using dg by (simp add: p_def)
    show ?thesis
    proof (cases "q = p")
      case True
      have n: "n = 2 ^ j + r" using nq True pj by simp
      show ?thesis
      proof (cases "r \<le> h")
        case True
        then have "round_even dg n = q * 2 ^ k" using ev \<open>q = p\<close> by (auto simp add: re)
        then have "round_even dg n = 2 ^ j" using \<open>q = p\<close> pj by simp
        then show ?thesis using True n hh by simp
      next
        case False
        then have "round_even dg n = (q + 1) * 2 ^ k" by (simp add: re)
        then have "round_even dg n = 2 ^ j + 2 ^ k" using \<open>q = p\<close> pj by (simp add: algebra_simps)
        then show ?thesis using False n hh by simp
      qed
    next
      case False
      with qge have "p + 1 \<le> q" by simp
      then have "(p + 1) * 2 ^ k \<le> q * 2 ^ k" by (rule mult_le_mono1)
      then have big: "2 ^ j + 2 * h \<le> q * 2 ^ k" using pj hk by (simp add: algebra_simps)
      have hpos: "0 < h" by (simp add: h_def)
      have "q * 2 ^ k \<le> round_even dg n" by (simp add: re)
      with big hpos have "\<not> round_even dg n \<le> 2 ^ j" by linarith
      moreover have "\<not> n \<le> 2 ^ j + h" using big nq hpos by linarith
      ultimately show ?thesis using hh by simp
    qed
  qed
qed

section \<open>The absolute check\<close>

lemma is_nan_float_data: "is_nan ft w \<longleftrightarrow> float_data ft w = NaN"
  by (simp add: is_nan_def float_data_def Let_def)

lemma absolute_value_simps:
  "absolute_value NaN = NaN"
  "absolute_value (Infty a) = Infty False"
  "absolute_value (Fin x) = Fin \<bar>x\<bar>"
  by (cases a; simp_all add: absolute_value_def fge_def)+

lemma float_close_Infty:
  "float_close ft (Infty a) y = False"
  "float_close ft x (Infty b) = False"
  by (cases y; cases x; simp add: float_close_def absolute_value_simps maxDiff_def)+

lemma absolute_value_fround:
  "absolute_value (fround ft d) =
     (let r = round_even (digits ft) (nat \<bar>d\<bar>)
      in if 2 ^ (digits ft + (2 ^ exponentBitCount ft - 3)) \<le> r then Infty False else Fin (int r))"
  by (simp add: fround_def Let_def absolute_value_simps)

lemma float_close_Fin_small:
  assumes "0 < digits ft"
    and "2 ^ (exponentBitCount ft - 1) - 2 < digits ft + (2 ^ exponentBitCount ft - 3)"
    and "\<bar>x - y\<bar> \<le> 2 ^ (2 ^ (exponentBitCount ft - 1) - 2)"
  shows "float_close ft (Fin x) (Fin y)"
proof -
  define j :: nat where "j = 2 ^ (exponentBitCount ft - 1) - 2"
  define t :: nat where "t = digits ft + (2 ^ exponentBitCount ft - 3)"
  define r where "r = round_even (digits ft) (nat \<bar>x - y\<bar>)"
  have "nat \<bar>x - y\<bar> \<le> 2 ^ j" using assms(3) by (simp add: nat_le_iff j_def)
  then have r: "r \<le> 2 ^ j" unfolding r_def using assms(1) by (rule round_even_le_pow [rotated])
  have "j < t" using assms(2) by (simp add: j_def t_def)
  then have "(2::nat) ^ j < 2 ^ t" by (simp add: power_strict_increasing_iff)
  with r have noov: "\<not> 2 ^ t \<le> r" by linarith
  have "int r \<le> int (2 ^ j)" using r by (simp only: of_nat_le_iff)
  then have le: "int r \<le> 2 ^ j" by simp
  have "absolute_value (fround ft (x - y)) = Fin (int r)"
    using noov unfolding absolute_value_fround r_def t_def by (simp add: Let_def)
  then show ?thesis using le by (simp add: float_close_def maxDiff_def j_def)
qed

lemma float_close_Fin_large:
  assumes "0 < digits ft"
    and "2 * 2 ^ (2 ^ (exponentBitCount ft - 1) - 2) \<le> \<bar>x - y\<bar>"
  shows "float_close ft (Fin x) (Fin y) = False"
proof -
  define j :: nat where "j = 2 ^ (exponentBitCount ft - 1) - 2"
  define r where "r = round_even (digits ft) (nat \<bar>x - y\<bar>)"
  have "2 ^ Suc j \<le> nat \<bar>x - y\<bar>" using assms(2) by (simp add: le_nat_iff j_def)
  then have "2 ^ Suc j \<le> r" unfolding r_def using assms(1) by (rule round_even_ge_pow [rotated])
  moreover have "(2::nat) ^ j < 2 ^ Suc j" by simp
  ultimately have "\<not> r \<le> 2 ^ j" by linarith
  moreover have "int (2 ^ j) = 2 ^ j" by simp
  ultimately have gt: "\<not> int r \<le> 2 ^ j" by linarith
  have "absolute_value (fround ft (x - y)) = Infty False \<or> absolute_value (fround ft (x - y)) = Fin (int r)"
    unfolding absolute_value_fround r_def by (simp add: Let_def)
  then show ?thesis using gt by (auto simp add: float_close_def maxDiff_def j_def)
qed

lemma float_close_Fin_iff:
  assumes dg: "2 \<le> digits ft"
    and j: "digits ft \<le> 2 ^ (exponentBitCount ft - 1) - 2"
    and ov: "2 ^ (exponentBitCount ft - 1) - 2 < digits ft + (2 ^ exponentBitCount ft - 3)"
  shows "float_close ft (Fin x) (Fin y) \<longleftrightarrow>
    \<bar>x - y\<bar> \<le> 2 ^ (2 ^ (exponentBitCount ft - 1) - 2)
      + 2 ^ (2 ^ (exponentBitCount ft - 1) - 2 - digits ft)"
proof -
  define j :: nat where "j = 2 ^ (exponentBitCount ft - 1) - 2"
  define t :: nat where "t = digits ft + (2 ^ exponentBitCount ft - 3)"
  define r where "r = round_even (digits ft) (nat \<bar>x - y\<bar>)"
  have "j < t" using ov by (simp add: j_def t_def)
  then have jt: "(2::nat) ^ j < 2 ^ t" by (simp add: power_strict_increasing_iff)
  have av: "absolute_value (fround ft (x - y)) = (if 2 ^ t \<le> r then Infty False else Fin (int r))"
    unfolding absolute_value_fround r_def t_def by (simp add: Let_def)
  have ij: "int (2 ^ j) = 2 ^ j" by simp
  have "float_close ft (Fin x) (Fin y) \<longleftrightarrow> \<not> 2 ^ t \<le> r \<and> int r \<le> 2 ^ j"
    by (simp add: float_close_def av maxDiff_def j_def)
  also have "\<dots> \<longleftrightarrow> r \<le> 2 ^ j" using jt ij by linarith
  also have "\<dots> \<longleftrightarrow> nat \<bar>x - y\<bar> \<le> 2 ^ j + 2 ^ (j - digits ft)"
    unfolding r_def using dg j by (intro round_even_le_pow_iff) (simp_all add: j_def)
  also have "\<dots> \<longleftrightarrow> \<bar>x - y\<bar> \<le> 2 ^ j + 2 ^ (j - digits ft)"
    by (simp add: nat_le_iff)
  finally show ?thesis by (simp only: j_def)
qed

lemma float_close_not_Fin:
  "float_close ft NaN b = False" "float_close ft a NaN = False"
  by (cases a; simp add: float_close_def absolute_value_simps)+

lemma float_close_exact_float:
  "float_close float_t a b =
     (case a of Fin x \<Rightarrow> (case b of Fin y \<Rightarrow> \<bar>x - y\<bar> \<le> 2 ^ 126 + 2 ^ 102 | _ \<Rightarrow> False)
      | _ \<Rightarrow> False)"
proof -
  have "float_close float_t (Fin x) (Fin y) \<longleftrightarrow> \<bar>x - y\<bar> \<le> 2 ^ 126 + 2 ^ 102" for x y
    using float_close_Fin_iff [of float_t x y] by (simp add: float_consts)
  then show ?thesis
    by (simp add: float_close_Infty float_close_not_Fin split: fval.split)
qed

lemma float_close_exact_double:
  "float_close double_t a b =
     (case a of Fin x \<Rightarrow> (case b of Fin y \<Rightarrow> \<bar>x - y\<bar> \<le> 2 ^ 1022 + 2 ^ 969 | _ \<Rightarrow> False)
      | _ \<Rightarrow> False)"
proof -
  have "float_close double_t (Fin x) (Fin y) \<longleftrightarrow> \<bar>x - y\<bar> \<le> 2 ^ 1022 + 2 ^ 969" for x y
    using float_close_Fin_iff [of double_t x y] by (simp add: double_consts)
  then show ?thesis
    by (simp add: float_close_Infty float_close_not_Fin split: fval.split)
qed

section \<open>Bit patterns\<close>

lemma and_xor_disjoint:
  fixes m s x :: "'a::len word"
  assumes "m AND s = 0"
  shows "m AND (x XOR s) = m AND x"
  using assms by (simp add: bit.conj_xor_distrib)

lemma and_exp_cases:
  fixes x :: "'a::len word"
  shows "2 ^ n AND x = (if bit x n then 2 ^ n else 0)"
  by (rule bit_word_eqI) (auto simp: bit_simps)

lemma bit_top_unat:
  fixes w :: "'a::len word"
  shows "bit w (LENGTH('a) - 1) \<longleftrightarrow> 2 ^ (LENGTH('a) - 1) \<le> unat w"
proof -
  have lt: "unat w < 2 * 2 ^ (LENGTH('a) - 1)"
    using unsigned_less [of w, where 'a = nat] by (metis power_Suc Suc_pred' len_gt_0 One_nat_def diff_Suc_1 Suc_diff_1)
  have "bit w (LENGTH('a) - 1) \<longleftrightarrow> odd (unat w div 2 ^ (LENGTH('a) - 1))"
  proof -
    have "bit w (LENGTH('a) - 1) \<longleftrightarrow> bit (unat w) (LENGTH('a) - 1)"
      by (simp add: bit_unsigned_iff)
    then show ?thesis by (simp only: bit_iff_odd)
  qed
  also have "\<dots> \<longleftrightarrow> 0 < unat w div 2 ^ (LENGTH('a) - 1)"
  proof -
    have "unat w div 2 ^ (LENGTH('a) - 1) < 2" using lt by (simp add: less_mult_imp_div_less)
    then have "unat w div 2 ^ (LENGTH('a) - 1) = 0 \<or> unat w div 2 ^ (LENGTH('a) - 1) = 1"
      by linarith
    then show ?thesis by auto
  qed
  also have "\<dots> \<longleftrightarrow> 2 ^ (LENGTH('a) - 1) \<le> unat w"
    by (simp only: div_greater_zero_iff) simp
  finally show ?thesis .
qed

lemma ulp_wraps:
  fixes a b :: "'a::len word"
  assumes s: "2 ^ (LENGTH('a) - 1) AND a = (2 ^ (LENGTH('a) - 1) AND b :: 'a word)"
    and lt: "a < b" and len: "3 < LENGTH('a)"
  shows "4 < unat (a - b)"
proof -
  define h :: nat where "h = 2 ^ (LENGTH('a) - 1)"
  have ne: "(2 :: 'a word) ^ (LENGTH('a) - 1) \<noteq> 0" by simp
  have "bit a (LENGTH('a) - 1) = bit b (LENGTH('a) - 1)"
    using s ne unfolding and_exp_cases by (auto split: if_splits)
  then have same: "h \<le> unat a \<longleftrightarrow> h \<le> unat b"
    unfolding h_def by (simp only: bit_top_unat)
  have sz: "(2::nat) ^ LENGTH('a) = 2 * h"
    unfolding h_def by (metis power_Suc Suc_pred' len_gt_0 One_nat_def)
  have ba: "unat a < 2 * h" "unat b < 2 * h"
    using unsigned_less [of a, where 'a = nat] unsigned_less [of b, where 'a = nat] sz by simp_all
  have ab: "unat a < unat b" using lt by (simp add: word_less_nat_alt)
  have u: "unat (a - b) = unat a + 2 * h - unat b"
    using ab sz by (simp add: unat_sub_if_size word_size)
  have "(2::nat) ^ 3 \<le> 2 ^ (LENGTH('a) - 1)" using len by (intro power_increasing) simp_all
  then have h8: "8 \<le> h" by (simp add: h_def)
  show ?thesis using u same ba ab h8 by linarith
qed

section \<open>Properties of the comparison\<close>

lemma almost_equal_refl_non_nan: "\<not> is_nan ft x \<Longrightarrow> almost_equal ft x x"
  by (simp add: almost_equal_def ulp_close_def maxUlpsDiff_def)

lemma float_data_float_inf:
  "float_data float_t (0x7F800000 :: 32 word) = Infty False"
  "float_data float_t (0xFF800000 :: 32 word) = Infty True"
  by (simp_all add: float_data_def field_defs float_masks)

lemma float_data_double_inf:
  "float_data double_t (0x7FF0000000000000 :: 64 word) = Infty False"
  "float_data double_t (0xFFF0000000000000 :: 64 word) = Infty True"
  by (simp_all add: float_data_def field_defs double_masks)

lemma is_nan_inf:
  "\<not> is_nan float_t (0x7F800000 :: 32 word)"
  "\<not> is_nan float_t (0xFF800000 :: 32 word)"
  "\<not> is_nan double_t (0x7FF0000000000000 :: 64 word)"
  "\<not> is_nan double_t (0xFFF0000000000000 :: 64 word)"
  by (simp_all add: is_nan_float_data float_data_float_inf float_data_double_inf)

lemma is_nan_max_finite:
  "\<not> is_nan float_t (0x7F7FFFFF :: 32 word)"
  "\<not> is_nan float_t (0xFF7FFFFF :: 32 word)"
  "\<not> is_nan double_t (0x7FEFFFFFFFFFFFFF :: 64 word)"
  "\<not> is_nan double_t (0xFFEFFFFFFFFFFFFF :: 64 word)"
  by (simp_all add: is_nan_def field_defs float_masks double_masks)

text \<open>
  Claim C3. A NaN, whatever its sign bit and its nonzero significand, is almost equal to
  nothing: for every bit pattern \<open>x\<close> that \<open>is_nan\<close> classifies as NaN and every \<open>y\<close>,
  \<open>almost_equal(x, y)\<close> and \<open>almost_equal(y, x)\<close> are false, \<open>y = x\<close> included. This
  holds for every instance of the template.
\<close>

theorem nan_never_equal:
  "is_nan ft x \<Longrightarrow> almost_equal ft x y = False \<and> almost_equal ft y x = False"
  by (simp add: almost_equal_def)

theorem nan_never_equal_witness:
  "is_nan float_t (0x7FC00000 :: 32 word)
   \<and> almost_equal float_t (0x7FC00000 :: 32 word) 0x7FC00000 = False
   \<and> almost_equal float_t (0x3F800000 :: 32 word) 0xFFC00001 = False"
  using nan_never_equal [of float_t "0x7FC00000 :: 32 word" "0x7FC00000"]
    nan_never_equal [of float_t "0xFFC00001 :: 32 word" "0x3F800000"]
  by (simp add: is_nan_def field_defs float_masks)

text \<open>
  Claim C4. Every finite value (exponent field not all ones) is almost equal to itself.
\<close>

theorem almost_equal_reflexive:
  "exponent_bits ft x \<noteq> exponentBitMask ft \<Longrightarrow> almost_equal ft x x"
  by (rule almost_equal_refl_non_nan) (simp add: is_nan_def)

theorem almost_equal_reflexive_witness:
  "exponent_bits float_t (0x3F800000 :: 32 word) \<noteq> exponentBitMask float_t
   \<and> almost_equal float_t (0x3F800000 :: 32 word) 0x3F800000"
  using almost_equal_reflexive [of float_t "0x3F800000 :: 32 word"]
  by (simp add: field_defs float_masks)

text \<open>
  Claim C6. For \<open>float\<close> and for \<open>double\<close>, the three masks together cover every bit
  and are pairwise disjoint.
\<close>

theorem masks_partition:
  "(signBitMask float_t OR exponentBitMask float_t OR significandBitMask float_t = (NOT 0 :: 32 word)
    \<and> signBitMask float_t AND exponentBitMask float_t = (0 :: 32 word)
    \<and> signBitMask float_t AND significandBitMask float_t = (0 :: 32 word)
    \<and> exponentBitMask float_t AND significandBitMask float_t = (0 :: 32 word))
   \<and> (signBitMask double_t OR exponentBitMask double_t OR significandBitMask double_t = (NOT 0 :: 64 word)
    \<and> signBitMask double_t AND exponentBitMask double_t = (0 :: 64 word)
    \<and> signBitMask double_t AND significandBitMask double_t = (0 :: 64 word)
    \<and> exponentBitMask double_t AND significandBitMask double_t = (0 :: 64 word))"
  by (simp add: float_masks double_masks)

text \<open>
  Claim C8. An infinity (exponent field all ones, significand zero) is almost equal to
  itself, for both signs and both widths. The
  difference of two equal infinities is a NaN, so the absolute check fails and the
  result comes from the ULP check on identical bit patterns.
\<close>

theorem infinity_equals_itself:
  "(float_data float_t (0x7F800000 :: 32 word) = Infty False
    \<and> almost_equal float_t (0x7F800000 :: 32 word) 0x7F800000)
   \<and> (float_data float_t (0xFF800000 :: 32 word) = Infty True
    \<and> almost_equal float_t (0xFF800000 :: 32 word) 0xFF800000)
   \<and> (float_data double_t (0x7FF0000000000000 :: 64 word) = Infty False
    \<and> almost_equal double_t (0x7FF0000000000000 :: 64 word) 0x7FF0000000000000)
   \<and> (float_data double_t (0xFFF0000000000000 :: 64 word) = Infty True
    \<and> almost_equal double_t (0xFFF0000000000000 :: 64 word) 0xFFF0000000000000)"
  by (simp add: almost_equal_refl_non_nan is_nan_inf float_data_float_inf float_data_double_inf)

text \<open>
  Claim C9. With the infinity as the left operand, plus infinity is almost equal to the
  largest finite value and minus infinity to the most negative finite value, for both
  widths: the bit pattern of the infinity is that of the finite value plus one, and the
  absolute check fails, the difference being infinite.
\<close>

theorem infinity_equals_largest_finite:
  "(float_data float_t (0x7F800000 :: 32 word) = Infty False
    \<and> (0x7F800000 :: 32 word) - 0x7F7FFFFF = 1
    \<and> almost_equal float_t (0x7F800000 :: 32 word) 0x7F7FFFFF)
   \<and> (float_data float_t (0xFF800000 :: 32 word) = Infty True
    \<and> (0xFF800000 :: 32 word) - 0xFF7FFFFF = 1
    \<and> almost_equal float_t (0xFF800000 :: 32 word) 0xFF7FFFFF)
   \<and> (float_data double_t (0x7FF0000000000000 :: 64 word) = Infty False
    \<and> (0x7FF0000000000000 :: 64 word) - 0x7FEFFFFFFFFFFFFF = 1
    \<and> almost_equal double_t (0x7FF0000000000000 :: 64 word) 0x7FEFFFFFFFFFFFFF)
   \<and> (float_data double_t (0xFFF0000000000000 :: 64 word) = Infty True
    \<and> (0xFFF0000000000000 :: 64 word) - 0xFFEFFFFFFFFFFFFF = 1
    \<and> almost_equal double_t (0xFFF0000000000000 :: 64 word) 0xFFEFFFFFFFFFFFFF)"
proof -
  have "almost_equal float_t (0x7F800000 :: 32 word) 0x7F7FFFFF"
    and "almost_equal float_t (0xFF800000 :: 32 word) 0xFF7FFFFF"
    by (simp_all add: almost_equal_def is_nan_inf is_nan_max_finite float_data_float_inf
        float_close_Infty field_defs float_masks ulp_close_def maxUlpsDiff_def)
  moreover have "almost_equal double_t (0x7FF0000000000000 :: 64 word) 0x7FEFFFFFFFFFFFFF"
    and "almost_equal double_t (0xFFF0000000000000 :: 64 word) 0xFFEFFFFFFFFFFFFF"
    by (simp_all add: almost_equal_def is_nan_inf is_nan_max_finite float_data_double_inf
        float_close_Infty field_defs double_masks ulp_close_def maxUlpsDiff_def)
  ultimately show ?thesis
    by (simp add: float_data_float_inf float_data_double_inf)
qed

text \<open>The bit patterns used below: \<open>1.0f\<close>, \<open>2.0f\<close> and their neighbours.\<close>

lemma float_data_one:
  "float_data float_t (0x3F800000 :: 32 word) = Fin (2 ^ 149)"
  "float_data float_t (0x3F800004 :: 32 word) = Fin (2 ^ 149 + 4 * 2 ^ 126)"
  by (simp_all add: float_data_def field_defs float_masks float_consts drop_bit_eq_div)

lemma float_data_two:
  "float_data float_t (0x40000000 :: 32 word) = Fin (2 ^ 150)"
  "float_data float_t (0x40000001 :: 32 word) = Fin (2 ^ 150 + 2 ^ 127)"
  by (simp_all add: float_data_def field_defs float_masks float_consts drop_bit_eq_div)

lemma float_close_one:
  "float_close float_t (float_data float_t (0x3F800000 :: 32 word))
     (float_data float_t (0x3F800004 :: 32 word)) = False"
  unfolding float_data_one by (rule float_close_Fin_large) (simp_all add: float_consts)

lemma float_close_two:
  "float_close float_t (float_data float_t (0x40000000 :: 32 word))
     (float_data float_t (0x40000001 :: 32 word)) = False"
  "float_close float_t (float_data float_t (0x40000001 :: 32 word))
     (float_data float_t (0x40000000 :: 32 word)) = False"
  unfolding float_data_two by (rule float_close_Fin_large; simp add: float_consts)+

text \<open>
  Claim C1, at the input where the code departs from it. \<open>1.0f\<close> is \<open>0x3F800000\<close> and
  four applications of \<open>nextafter\<close> towards plus infinity give \<open>0x3F800004\<close>: same sign,
  bit patterns differing by exactly 4. The absolute check fails, and \<open>ulp_close\<close>
  computes \<open>0x3F800000 - 0x3F800004\<close>, which wraps around to \<open>0xFFFFFFFC\<close>, so
  \<open>almost_equal(1.0f, 0x3F800004)\<close> is false.
\<close>

theorem ulp_boundary_wraps:
  "float_data float_t (0x3F800000 :: 32 word) = Fin (2 ^ 149)
   \<and> sign_bit float_t (0x3F800000 :: 32 word) = sign_bit float_t (0x3F800004 :: 32 word)
   \<and> (0x3F800004 :: 32 word) - 0x3F800000 = 4
   \<and> almost_equal float_t (0x3F800000 :: 32 word) 0x3F800004 = False"
proof (intro conjI)
  show "float_data float_t (0x3F800000 :: 32 word) = Fin (2 ^ 149)"
    by (rule float_data_one)
  show "sign_bit float_t (0x3F800000 :: 32 word) = sign_bit float_t (0x3F800004 :: 32 word)"
    by (simp add: field_defs float_masks)
  show "(0x3F800004 :: 32 word) - 0x3F800000 = 4"
    by simp
  show "almost_equal float_t (0x3F800000 :: 32 word) 0x3F800004 = False"
    by (simp add: almost_equal_def float_close_one field_defs float_masks ulp_close_def
        maxUlpsDiff_def)
qed

text \<open>
  Claim C2, at an input where the code departs from it. \<open>2.0f\<close> is \<open>0x40000000\<close> and the
  next value above it is \<open>0x40000001\<close>; both are finite. \<open>almost_equal\<close> is true with
  the larger bit pattern on the left and false with it on the right.
\<close>

theorem almost_equal_asymmetric:
  "exponent_bits float_t (0x40000000 :: 32 word) \<noteq> exponentBitMask float_t
   \<and> exponent_bits float_t (0x40000001 :: 32 word) \<noteq> exponentBitMask float_t
   \<and> almost_equal float_t (0x40000000 :: 32 word) 0x40000001
       \<noteq> almost_equal float_t (0x40000001 :: 32 word) 0x40000000"
  by (simp add: almost_equal_def is_nan_def float_close_two field_defs float_masks
      ulp_close_def maxUlpsDiff_def unsigned_minus_1_eq_mask mask_eq_exp_minus_1)

lemma float_data_zero:
  "float_data float_t (0 :: 32 word) = Fin 0"
  "float_data double_t (0 :: 64 word) = Fin 0"
  by (simp_all add: float_data_def field_defs float_masks double_masks)

lemma fle_abs_maxDiff:
  assumes "fle (absolute_value v) (maxDiff ft)"
  obtains n where "v = Fin n" "\<bar>n\<bar> \<le> 2 ^ (2 ^ (exponentBitCount ft - 1) - 2)"
  using assms by (cases v) (simp_all add: absolute_value_simps maxDiff_def)

lemma near_zero_generic:
  fixes x :: "'a::len word"
  assumes z: "float_data ft (0 :: 'a word) = Fin 0"
    and dg: "0 < digits ft"
    and ov: "2 ^ (exponentBitCount ft - 1) - 2 < digits ft + (2 ^ exponentBitCount ft - 3)"
    and x: "fle (absolute_value (float_data ft x)) (maxDiff ft)"
  shows "almost_equal ft x 0"
proof -
  from x obtain n where n: "float_data ft x = Fin n" "\<bar>n\<bar> \<le> 2 ^ (2 ^ (exponentBitCount ft - 1) - 2)"
    by (rule fle_abs_maxDiff)
  have "\<not> is_nan ft x" "\<not> is_nan ft (0 :: 'a word)" using n z by (simp_all add: is_nan_float_data)
  moreover have "float_close ft (float_data ft x) (float_data ft (0 :: 'a word))"
    unfolding n z using dg ov n(2) by (intro float_close_Fin_small) simp_all
  ultimately show ?thesis by (simp add: almost_equal_def)
qed

text \<open>
  \<open>epsilon\<close> against minus \<open>2 ^ -47\<close>: the exact difference \<open>2 ^ -23 + 2 ^ -47\<close> lies halfway
  between \<open>epsilon\<close> and the next \<open>float\<close> above it and rounds to \<open>epsilon\<close>.
\<close>

lemma float_data_tie:
  "float_data float_t (0x34000000 :: 32 word) = Fin (2 ^ 126)"
  "float_data float_t (0xA8000000 :: 32 word) = Fin (- (2 ^ 102))"
  by (simp_all add: float_data_def field_defs float_masks float_consts drop_bit_eq_div)

lemma float_close_tie:
  "float_close float_t (float_data float_t (0x34000000 :: 32 word))
     (float_data float_t (0xA8000000 :: 32 word))"
  unfolding float_data_tie float_close_exact_float by simp

lemma float_data_eps:
  "float_data float_t (0x34000000 :: 32 word) = maxDiff float_t"
  "float_data float_t (0xB4000000 :: 32 word) = fneg (maxDiff float_t)"
  by (simp_all add: float_data_def field_defs float_masks float_consts drop_bit_eq_div maxDiff_def)

text \<open>
  Claim C5 as stated fails in its second half. At \<open>a = epsilon\<close> (\<open>0x34000000\<close>) and
  \<open>b = -(2 ^ -47)\<close> (\<open>0xA8000000\<close>) of type \<open>float\<close> the exact \<open>|a - b|\<close> is above
  \<open>epsilon\<close>, and \<open>float_close(a, b)\<close> is true: it does not return true exactly when
  \<open>|a - b| <= epsilon\<close>.
\<close>

theorem float_close_exact_difference_counterexample:
  "float_data float_t (0x34000000 :: 32 word) = Fin (2 ^ 126)
   \<and> float_data float_t (0xA8000000 :: 32 word) = Fin (- (2 ^ 102))
   \<and> maxDiff float_t = Fin (2 ^ 126)
   \<and> \<not> \<bar>2 ^ 126 - (- (2 ^ 102))\<bar> \<le> (2 ^ 126 :: int)
   \<and> float_close float_t (float_data float_t (0x34000000 :: 32 word))
        (float_data float_t (0xA8000000 :: 32 word))"
proof (intro conjI)
  show "float_data float_t (0x34000000 :: 32 word) = Fin (2 ^ 126)"
    and "float_data float_t (0xA8000000 :: 32 word) = Fin (- (2 ^ 102))"
    by (rule float_data_tie)+
  show "maxDiff float_t = Fin (2 ^ 126)"
    by (simp add: maxDiff_def float_consts)
  show "\<not> \<bar>2 ^ 126 - (- (2 ^ 102))\<bar> \<le> (2 ^ 126 :: int)"
    by simp
  show "float_close float_t (float_data float_t (0x34000000 :: 32 word))
        (float_data float_t (0xA8000000 :: 32 word))"
    by (rule float_close_tie)
qed

text \<open>
  Claim C5, amended. For \<open>float\<close> and for \<open>double\<close>: every \<open>x\<close> with \<open>|x| <= epsilon\<close>,
  the comparison being the one of the floating-point type, is almost equal to \<open>0.0\<close>;
  and \<open>float_close(a, b)\<close> returns true exactly when \<open>a\<close> and \<open>b\<close> are finite and the exact
  \<open>|a - b|\<close> is at most \<open>epsilon * (1 + 2 ^ -digits)\<close>, which is when the difference
  rounded to the type has magnitude at most \<open>epsilon\<close>. In units of the smallest
  subnormal the bound is \<open>2 ^ 126 + 2 ^ 102\<close> for \<open>float\<close> and \<open>2 ^ 1022 + 2 ^ 969\<close> for
  \<open>double\<close>. So \<open>float_close\<close> is true whenever the exact \<open>|a - b| <= epsilon\<close> on finite
  values, and false when an operand is infinite or a NaN.
\<close>

theorem near_zero_almost_equal_zero:
  "((\<forall>x :: 32 word. fle (absolute_value (float_data float_t x)) (maxDiff float_t)
        \<longrightarrow> almost_equal float_t x 0)
    \<and> (\<forall>a b. float_close float_t a b =
          (case a of
             Fin x \<Rightarrow> (case b of Fin y \<Rightarrow> \<bar>x - y\<bar> \<le> 2 ^ 126 + 2 ^ 102 | _ \<Rightarrow> False)
           | _ \<Rightarrow> False)))
   \<and> ((\<forall>x :: 64 word. fle (absolute_value (float_data double_t x)) (maxDiff double_t)
        \<longrightarrow> almost_equal double_t x 0)
    \<and> (\<forall>a b. float_close double_t a b =
          (case a of
             Fin x \<Rightarrow> (case b of Fin y \<Rightarrow> \<bar>x - y\<bar> \<le> 2 ^ 1022 + 2 ^ 969 | _ \<Rightarrow> False)
           | _ \<Rightarrow> False)))"
proof (intro conjI allI impI)
  fix x :: "32 word"
  assume "fle (absolute_value (float_data float_t x)) (maxDiff float_t)"
  then show "almost_equal float_t x 0"
    by (rule near_zero_generic [rotated 3]) (simp_all add: float_data_zero float_consts)
next
  fix x :: "64 word"
  assume "fle (absolute_value (float_data double_t x)) (maxDiff double_t)"
  then show "almost_equal double_t x 0"
    by (rule near_zero_generic [rotated 3]) (simp_all add: float_data_zero double_consts)
next
  fix a b
  show "float_close float_t a b =
          (case a of
             Fin x \<Rightarrow> (case b of Fin y \<Rightarrow> \<bar>x - y\<bar> \<le> 2 ^ 126 + 2 ^ 102 | _ \<Rightarrow> False)
           | _ \<Rightarrow> False)"
    by (rule float_close_exact_float)
next
  fix a b
  show "float_close double_t a b =
          (case a of
             Fin x \<Rightarrow> (case b of Fin y \<Rightarrow> \<bar>x - y\<bar> \<le> 2 ^ 1022 + 2 ^ 969 | _ \<Rightarrow> False)
           | _ \<Rightarrow> False)"
    by (rule float_close_exact_double)
qed

theorem near_zero_almost_equal_zero_witness:
  "fle (absolute_value (float_data float_t (0xB4000000 :: 32 word))) (maxDiff float_t)
   \<and> almost_equal float_t (0xB4000000 :: 32 word) 0"
proof -
  have h: "fle (absolute_value (float_data float_t (0xB4000000 :: 32 word))) (maxDiff float_t)"
    by (simp add: float_data_eps maxDiff_def absolute_value_simps)
  from near_zero_almost_equal_zero
  have "\<forall>x :: 32 word. fle (absolute_value (float_data float_t x)) (maxDiff float_t)
        \<longrightarrow> almost_equal float_t x 0"
    by (rule conjunct1 [THEN conjunct1])
  with h show ?thesis by blast
qed

lemma float_data_negate_generic:
  fixes x :: "'a::len word"
  assumes e: "exponentBitMask ft AND signBitMask ft = (0 :: 'a word)"
    and m: "significandBitMask ft AND signBitMask ft = (0 :: 'a word)"
    and s: "signBitMask ft = (2 ^ n :: 'a word)"
    and s0: "signBitMask ft \<noteq> (0 :: 'a word)"
  shows "float_data ft (float_negate ft x) = fneg (float_data ft x)"
proof -
  have ex: "exponent_bits ft (float_negate ft x) = exponent_bits ft x"
    using e by (simp add: exponent_bits_def float_negate_def and_xor_disjoint)
  have sg: "significand_bits ft (float_negate ft x) = significand_bits ft x"
    using m by (simp add: significand_bits_def float_negate_def and_xor_disjoint)
  have "signBitMask ft AND x = 0 \<or> signBitMask ft AND x = signBitMask ft"
    unfolding s and_exp_cases by simp
  moreover have "sign_bit ft (float_negate ft x) = (signBitMask ft AND x) XOR signBitMask ft"
    by (simp add: sign_bit_def float_negate_def bit.conj_xor_distrib)
  ultimately have sn: "sign_bit ft (float_negate ft x) \<noteq> 0 \<longleftrightarrow> sign_bit ft x = 0"
    using s0 by (auto simp add: sign_bit_def)
  show ?thesis
    unfolding float_data_def ex sg Let_def sn by simp
qed

lemma sign_bit_negate:
  fixes x :: "'a::len word"
  assumes "signBitMask ft \<noteq> (0 :: 'a word)"
  shows "sign_bit ft (float_negate ft x) \<noteq> sign_bit ft x"
proof
  define a where "a = signBitMask ft AND x"
  assume "sign_bit ft (float_negate ft x) = sign_bit ft x"
  then have h: "a XOR signBitMask ft = a"
    by (simp add: sign_bit_def float_negate_def bit.conj_xor_distrib a_def)
  have "signBitMask ft = (a XOR a) XOR signBitMask ft" by simp
  also have "\<dots> = a XOR (a XOR signBitMask ft)" by (simp only: xor.assoc)
  also have "\<dots> = 0" by (simp only: h) simp
  finally show False using assms by simp
qed

lemma opposite_generic:
  fixes x :: "'a::len word"
  assumes neg: "float_data ft (float_negate ft x) = fneg (float_data ft x)"
    and s: "signBitMask ft \<noteq> (0 :: 'a word)"
    and dg: "0 < digits ft"
    and x: "\<not> fle (absolute_value (float_data ft x)) (maxDiff ft)"
  shows "almost_equal ft x (float_negate ft x) = False"
proof -
  have "\<not> float_close ft (float_data ft x) (float_data ft (float_negate ft x))"
  proof (cases "float_data ft x")
    case NaN
    then show ?thesis by (simp add: neg float_close_def absolute_value_simps)
  next
    case (Infty a)
    then show ?thesis by (simp add: float_close_Infty)
  next
    case (Fin n)
    define j :: nat where "j = 2 ^ (exponentBitCount ft - 1) - 2"
    from x Fin have "\<not> \<bar>n\<bar> \<le> 2 ^ j"
      by (simp add: absolute_value_simps maxDiff_def j_def)
    then have "2 * 2 ^ j \<le> \<bar>n - (- n)\<bar>" by linarith
    then have "float_close ft (Fin n) (Fin (- n)) = False"
      unfolding j_def using dg by (intro float_close_Fin_large) 
    then show ?thesis by (simp add: neg Fin)
  qed
  then show ?thesis using sign_bit_negate [OF s, of x] by (simp add: almost_equal_def)
qed

text \<open>
  Claim C7. For \<open>float\<close> and for \<open>double\<close>: for every \<open>x\<close> for which \<open>|x| <= epsilon\<close>
  is false, which every nonzero \<open>x\<close> with \<open>|x| > epsilon\<close> satisfies, \<open>almost_equal(x, -x)\<close>
  is false.
\<close>

theorem opposite_signs_not_equal:
  "(\<forall>x :: 32 word. \<not> fle (absolute_value (float_data float_t x)) (maxDiff float_t)
       \<longrightarrow> almost_equal float_t x (float_negate float_t x) = False)
   \<and> (\<forall>x :: 64 word. \<not> fle (absolute_value (float_data double_t x)) (maxDiff double_t)
       \<longrightarrow> almost_equal double_t x (float_negate double_t x) = False)"
proof (intro conjI allI impI)
  fix x :: "32 word"
  have s: "signBitMask float_t = (2 ^ 31 :: 32 word)" by (simp add: float_masks)
  have n: "float_data float_t (float_negate float_t x) = fneg (float_data float_t x)"
    by (rule float_data_negate_generic [OF _ _ s]) (simp_all add: float_masks)
  assume h: "\<not> fle (absolute_value (float_data float_t x)) (maxDiff float_t)"
  show "almost_equal float_t x (float_negate float_t x) = False"
    by (rule opposite_generic [OF n _ _ h]) (simp_all add: float_masks float_consts)
next
  fix x :: "64 word"
  have s: "signBitMask double_t = (2 ^ 63 :: 64 word)" by (simp add: double_masks)
  have n: "float_data double_t (float_negate double_t x) = fneg (float_data double_t x)"
    by (rule float_data_negate_generic [OF _ _ s]) (simp_all add: double_masks)
  assume h: "\<not> fle (absolute_value (float_data double_t x)) (maxDiff double_t)"
  show "almost_equal double_t x (float_negate double_t x) = False"
    by (rule opposite_generic [OF n _ _ h]) (simp_all add: double_masks double_consts)
qed

theorem opposite_signs_not_equal_witness:
  "\<not> fle (absolute_value (float_data float_t (0x3F800000 :: 32 word))) (maxDiff float_t)
   \<and> float_negate float_t (0x3F800000 :: 32 word) = 0xBF800000
   \<and> almost_equal float_t (0x3F800000 :: 32 word) 0xBF800000 = False"
proof -
  have h: "\<not> fle (absolute_value (float_data float_t (0x3F800000 :: 32 word))) (maxDiff float_t)"
    by (simp add: float_data_one absolute_value_simps maxDiff_def float_consts)
  have n: "float_negate float_t (0x3F800000 :: 32 word) = 0xBF800000"
    by (simp add: float_negate_def float_masks)
  from opposite_signs_not_equal h
  have "almost_equal float_t (0x3F800000 :: 32 word) (float_negate float_t 0x3F800000) = False"
    by blast
  with h n show ?thesis by simp
qed

lemma wrapped_generic:
  fixes a b :: "'a::len word"
  assumes s: "signBitMask ft = (2 ^ (LENGTH('a) - 1) :: 'a word)"
    and len: "3 < LENGTH('a)"
    and sg: "sign_bit ft a = sign_bit ft b"
    and fc: "\<not> float_close ft (float_data ft a) (float_data ft b)"
    and lt: "a < b"
  shows "4 < unat (a - b) \<and> almost_equal ft a b = False"
proof -
  have "4 < unat (a - b)"
    using sg lt len unfolding sign_bit_def s by (rule ulp_wraps)
  then show ?thesis using fc by (simp add: almost_equal_def ulp_close_def maxUlpsDiff_def)
qed

text \<open>
  Claim C10. For \<open>float\<close> and for \<open>double\<close>: when \<open>a\<close> and \<open>b\<close> are not NaN, have the same
  sign bit, fail the absolute check, and the bit pattern of \<open>a\<close> is strictly below that
  of \<open>b\<close>, the subtraction \<open>a - b\<close> of \<open>bit_data\<close> wraps to a value above 4 and
  \<open>almost_equal(a, b)\<close> is false.
\<close>

theorem smaller_left_operand_never_ulp_close:
  "(\<forall>a b :: 32 word.
      \<not> is_nan float_t a \<and> \<not> is_nan float_t b \<and> sign_bit float_t a = sign_bit float_t b
      \<and> \<not> float_close float_t (float_data float_t a) (float_data float_t b) \<and> a < b
      \<longrightarrow> 4 < unat (a - b) \<and> almost_equal float_t a b = False)
   \<and> (\<forall>a b :: 64 word.
      \<not> is_nan double_t a \<and> \<not> is_nan double_t b \<and> sign_bit double_t a = sign_bit double_t b
      \<and> \<not> float_close double_t (float_data double_t a) (float_data double_t b) \<and> a < b
      \<longrightarrow> 4 < unat (a - b) \<and> almost_equal double_t a b = False)"
proof -
  have "4 < unat (a - b) \<and> almost_equal float_t a b = False"
    if "sign_bit float_t a = sign_bit float_t b
        \<and> \<not> float_close float_t (float_data float_t a) (float_data float_t b) \<and> a < b"
    for a b :: "32 word"
    using that by (intro wrapped_generic) (simp_all add: float_masks)
  moreover have "4 < unat (a - b) \<and> almost_equal double_t a b = False"
    if "sign_bit double_t a = sign_bit double_t b
        \<and> \<not> float_close double_t (float_data double_t a) (float_data double_t b) \<and> a < b"
    for a b :: "64 word"
    using that by (intro wrapped_generic) (simp_all add: double_masks)
  ultimately show ?thesis by blast
qed

theorem smaller_left_operand_never_ulp_close_witness:
  "\<not> is_nan float_t (0x3F800000 :: 32 word) \<and> \<not> is_nan float_t (0x3F800004 :: 32 word)
   \<and> sign_bit float_t (0x3F800000 :: 32 word) = sign_bit float_t (0x3F800004 :: 32 word)
   \<and> \<not> float_close float_t (float_data float_t (0x3F800000 :: 32 word))
         (float_data float_t (0x3F800004 :: 32 word))
   \<and> (0x3F800000 :: 32 word) < 0x3F800004
   \<and> 4 < unat ((0x3F800000 :: 32 word) - 0x3F800004)
   \<and> almost_equal float_t (0x3F800000 :: 32 word) 0x3F800004 = False"
proof -
  have h: "\<not> is_nan float_t (0x3F800000 :: 32 word) \<and> \<not> is_nan float_t (0x3F800004 :: 32 word)
   \<and> sign_bit float_t (0x3F800000 :: 32 word) = sign_bit float_t (0x3F800004 :: 32 word)
   \<and> \<not> float_close float_t (float_data float_t (0x3F800000 :: 32 word))
         (float_data float_t (0x3F800004 :: 32 word))
   \<and> (0x3F800000 :: 32 word) < 0x3F800004"
    by (simp add: is_nan_def field_defs float_masks float_close_one)
  with smaller_left_operand_never_ulp_close show ?thesis by blast
qed

text \<open>
  What \<open>ulp_close\<close> does at the boundary, in either order of the operands: a left
  operand that is the right one plus 4 passes, and a distance of 5 fails both ways.
\<close>

lemma ulp_close_four_left_larger:
  fixes b :: "'a::len word"
  shows "ulp_close (b + 4) b"
  by (simp add: ulp_close_def maxUlpsDiff_def word_le_nat_alt [symmetric])

lemma ulp_close_five:
  fixes a b :: "32 word"
  assumes "a - b = 5 \<or> b - a = 5"
  shows "\<not> ulp_close a b"
proof -
  from assms have "a - b = 5 \<or> a - b = - 5"
    by (metis minus_diff_eq)
  then show ?thesis by (auto simp add: ulp_close_def maxUlpsDiff_def)
qed

end
